theory Spec2Isabelle
  imports Complex_Main "HOL-Library.Word"
begin

section \<open>Values, exceptions and the environment of server.js\<close>

text \<open>
  The values the program handles that are not of one fixed type (a request header, a query
  parameter, a field of the request body, a display field of a user, the reply of
  \<^verbatim>\<open>getChatMember\<close>, the result of \<^verbatim>\<open>JSON.parse\<close>) are JavaScript values. A JSON number is
  kept as the rational it denotes.
\<close>

datatype jsval =
    Undefined
  | Null
  | Bool bool
  | Num rat
  | Str string
  | Arr "jsval list"
  | Obj "(string \<times> jsval) list"

text \<open>\<^verbatim>\<open>!v\<close>: the falsy values are undefined, null, false, 0 and the empty string.\<close>

fun js_not :: "jsval \<Rightarrow> bool" where
  "js_not Undefined = True"
| "js_not Null = True"
| "js_not (Bool b) = (b = False)"
| "js_not (Num r) = (r = 0)"
| "js_not (Str s) = (s = [])"
| "js_not (Arr xs) = False"
| "js_not (Obj kvs) = False"

text \<open>\<^verbatim>\<open>a || b\<close> and \<^verbatim>\<open>a && b\<close> on values.\<close>

definition js_or :: "jsval \<Rightarrow> jsval \<Rightarrow> jsval" where
  "js_or a b = (if js_not a then b else a)"

definition js_and :: "jsval \<Rightarrow> jsval \<Rightarrow> jsval" where
  "js_and a b = (if js_not a then a else b)"

text \<open>\<^verbatim>\<open>v.key\<close> on a value that is neither null nor undefined: a property of an object,
  undefined on every other value.\<close>

fun js_prop :: "jsval \<Rightarrow> string \<Rightarrow> jsval" where
  "js_prop (Obj kvs) k = (case map_of kvs k of None \<Rightarrow> Undefined | Some v \<Rightarrow> v)"
| "js_prop v k = Undefined"

text \<open>
  A thrown value is an \<^verbatim>\<open>Error\<close> object with its message (what the file system, the JSON
  parser and the Telegram client throw). A call that may throw returns a \<open>result\<close>.
\<close>

datatype exn = Error (message: string)

datatype 'a result = Throw exn | Return 'a

subsection \<open>The data directory and users.json\<close>

text \<open>
  The file system as far as the program looks at it: whether the data directory exists,
  whether \<^verbatim>\<open>mkdirSync\<close> and \<^verbatim>\<open>writeFileSync\<close> would throw, and the users file (missing,
  present but unreadable, or its text).
\<close>

datatype file_state = Missing | Unreadable | Text string

record fs_state =
  dir_exists :: bool
  mkdir_fails :: bool
  write_fails :: bool
  users_file :: file_state

definition ensureDataDir :: "fs_state \<Rightarrow> unit result \<times> fs_state" where
  "ensureDataDir f =
     (if dir_exists f then (Return (), f)
      else if mkdir_fails f then (Throw (Error ''mkdir''), f)
      else (Return (), f\<lparr>dir_exists := True\<rparr>))"

definition readFileSync :: "fs_state \<Rightarrow> string result" where
  "readFileSync f =
     (case users_file f of
        Missing \<Rightarrow> Throw (Error ''ENOENT'')
      | Unreadable \<Rightarrow> Throw (Error ''EACCES'')
      | Text raw \<Rightarrow> Return raw)"

definition writeFileSync :: "string \<Rightarrow> fs_state \<Rightarrow> unit result \<times> fs_state" where
  "writeFileSync txt f =
     (if write_fails f then (Throw (Error ''write''), f)
      else (Return (), f\<lparr>users_file := Text txt\<rparr>))"

text \<open>
  \<^verbatim>\<open>loadUsers\<close>: \<^verbatim>\<open>ensureDataDir()\<close> stands before the \<^verbatim>\<open>try\<close>; the read and \<^verbatim>\<open>JSON.parse\<close> stand
  inside it, and the \<^verbatim>\<open>catch\<close> returns \<^verbatim>\<open>[]\<close>. What \<^verbatim>\<open>JSON.parse\<close> returns is returned as it is.
  \<open>JSON_parse\<close> is the library function, a parameter.
\<close>

definition loadUsers :: "(string \<Rightarrow> jsval result) \<Rightarrow> fs_state \<Rightarrow> jsval result \<times> fs_state" where
  "loadUsers JSON_parse f =
     (case ensureDataDir f of
        (Throw e, f1) \<Rightarrow> (Throw e, f1)
      | (Return _, f1) \<Rightarrow>
          (case readFileSync f1 of
             Throw e \<Rightarrow> (Return (Arr []), f1)
           | Return raw \<Rightarrow>
               (case JSON_parse raw of
                  Throw e \<Rightarrow> (Return (Arr []), f1)
                | Return v \<Rightarrow> (Return v, f1))))"

subsection \<open>The user registry\<close>

text \<open>
  A user record. The display fields hold a string or null; \<open>last_seen\<close> is the clock
  reading (milliseconds since the epoch) that \<^verbatim>\<open>toISOString\<close> renders.
\<close>

record user =
  telegram_id :: int
  username :: jsval
  first_name :: jsval
  last_name :: jsval
  token :: string
  last_seen :: nat

text \<open>\<^verbatim>\<open>ctx.from\<close>, the sender of a bot event.\<close>

record tg_from =
  from_id :: int
  from_username :: jsval
  from_first_name :: jsval
  from_last_name :: jsval

text \<open>
  A call of the Telegram client, as the transport sees it. The reply markup of a message
  is kept by what varies in it: the URL of the play button and the notification flag.
\<close>

record markup =
  play_url :: string
  disable_notification :: bool

datatype call =
    GetChatMember string int
  | SendMessage int jsval markup

text \<open>A line of \<^verbatim>\<open>console.error\<close>: which handler wrote it, about whom, and the message.\<close>

datatype log_line =
    GetChatMemberError string string
  | BroadcastFailed int string
  | PromoFailed int string

text \<open>
  The state of the process: the module variable \<open>users\<close>, the file system, the calls made
  to the Telegram client so far, and the console.
\<close>

record state =
  users :: "user list"
  fs :: fs_state
  calls :: "call list"
  console :: "log_line list"

text \<open>\<^verbatim>\<open>saveUsers\<close> catches nothing. \<open>JSON_stringify\<close> is the library function, a parameter.\<close>

definition saveUsers :: "(user list \<Rightarrow> string) \<Rightarrow> user list \<Rightarrow> fs_state \<Rightarrow> unit result \<times> fs_state" where
  "saveUsers JSON_stringify us f =
     (case ensureDataDir f of
        (Throw e, f1) \<Rightarrow> (Throw e, f1)
      | (Return _, f1) \<Rightarrow> writeFileSync (JSON_stringify us) f1)"

definition findUserById :: "user list \<Rightarrow> int \<Rightarrow> user option" where
  "findUserById us tgId = find (\<lambda>u. telegram_id u = tgId) us"

text \<open>
  \<^verbatim>\<open>crypto.randomBytes(n)\<close> reads \<open>n\<close> bytes of the entropy source; \<^verbatim>\<open>toString('hex')\<close>
  writes each byte as two lowercase hexadecimal digits.
\<close>

definition randomBytes :: "(nat \<Rightarrow> 8 word) \<Rightarrow> nat \<Rightarrow> 8 word list" where
  "randomBytes entropy n = map entropy [0..<n]"

definition hex_digit :: "nat \<Rightarrow> char" where
  "hex_digit d = ''0123456789abcdef'' ! d"

definition toString_hex :: "8 word list \<Rightarrow> string" where
  "toString_hex bs = concat (map (\<lambda>b. [hex_digit (unat b div 16), hex_digit (unat b mod 16)]) bs)"

text \<open>
  The found record is an element of the array and is updated in place: the first record
  with the id is replaced.
\<close>

fun update_found :: "int \<Rightarrow> user \<Rightarrow> user list \<Rightarrow> user list" where
  "update_found tgId u' [] = []"
| "update_found tgId u' (u # us) =
     (if telegram_id u = tgId then u' # us else u # update_found tgId u' us)"

text \<open>
  \<^verbatim>\<open>addOrUpdateUser(from)\<close>, with the entropy source and the clock reading of
  \<^verbatim>\<open>new Date()\<close> as inputs. The array is changed before \<^verbatim>\<open>saveUsers\<close> is called, and what
  \<^verbatim>\<open>saveUsers\<close> throws leaves the function.
\<close>

definition addOrUpdateUser ::
  "(user list \<Rightarrow> string) \<Rightarrow> (nat \<Rightarrow> 8 word) \<Rightarrow> nat \<Rightarrow> tg_from \<Rightarrow> state \<Rightarrow> user result \<times> state" where
  "addOrUpdateUser JSON_stringify entropy now from s =
     (let tgId = from_id from in
      case findUserById (users s) tgId of
        None \<Rightarrow>
          (let u = \<lparr>telegram_id = tgId,
                    username = js_or (from_username from) Null,
                    first_name = js_or (from_first_name from) Null,
                    last_name = js_or (from_last_name from) Null,
                    token = toString_hex (randomBytes entropy 10),
                    last_seen = now\<rparr>;
               us = users s @ [u]
           in case saveUsers JSON_stringify us (fs s) of
                (Throw e, f1) \<Rightarrow> (Throw e, s\<lparr>users := us, fs := f1\<rparr>)
              | (Return _, f1) \<Rightarrow> (Return u, s\<lparr>users := us, fs := f1\<rparr>))
      | Some u0 \<Rightarrow>
          (let u = u0\<lparr>username := js_or (from_username from) (username u0),
                      first_name := js_or (from_first_name from) (first_name u0),
                      last_name := js_or (from_last_name from) (last_name u0),
                      last_seen := now\<rparr>;
               us = update_found tgId u (users s)
           in case saveUsers JSON_stringify us (fs s) of
                (Throw e, f1) \<Rightarrow> (Throw e, s\<lparr>users := us, fs := f1\<rparr>)
              | (Return _, f1) \<Rightarrow> (Return u, s\<lparr>users := us, fs := f1\<rparr>)))"

section \<open>Configuration and the Telegram client\<close>

text \<open>
  The constants read from the environment that the modelled functions use.
  \<open>REQUIRED_CHANNELS\<close> is the list after splitting, trimming and dropping empty entries.
  \<open>PROMO_MESSAGES\<close> is the pool of three promo texts.
\<close>

record config =
  REQUIRED_CHANNELS :: "string list"
  WEB_APP_URL :: string
  ADMIN_TOKEN :: string
  PROMO_MESSAGES :: "string list"

text \<open>
  The Telegram client is outside the program. Its answer to a call may depend on
  everything it was asked before, so each operation takes the calls made so far:
  \<^verbatim>\<open>getChatMember(ch, tgId)\<close> returns a value or throws, \<^verbatim>\<open>sendMessage(tgId, text, extra)\<close>
  returns or throws.
\<close>

record transport =
  getChatMember :: "call list \<Rightarrow> string \<Rightarrow> int \<Rightarrow> jsval result"
  sendMessage :: "call list \<Rightarrow> int \<Rightarrow> jsval \<Rightarrow> markup \<Rightarrow> unit result"

section \<open>The membership verifier\<close>

text \<open>
  \<open>channel_name\<close> is \<open>chRaw\<close> with a leading \<^verbatim>\<open>@\<close> put before it when it has none.
  The \<^verbatim>\<open>for\<close> loop of \<^verbatim>\<open>isMemberOfAllChannels\<close>. The \<^verbatim>\<open>catch\<close> writes a console line and
  returns false; a falsy status, \<^verbatim>\<open>left\<close> and \<^verbatim>\<open>kicked\<close> return false; every other status goes
  on to the next channel.
\<close>

definition channel_name :: "string \<Rightarrow> string" where
  "channel_name chRaw = (if take 1 chRaw = ''@'' then chRaw else ''@'' @ chRaw)"

fun isMemberOfAllChannels_for :: "transport \<Rightarrow> int \<Rightarrow> string list \<Rightarrow> state \<Rightarrow> bool result \<times> state" where
  "isMemberOfAllChannels_for T tgId [] s = (Return True, s)"
| "isMemberOfAllChannels_for T tgId (chRaw # rest) s =
     (let ch = channel_name chRaw;
          s1 = s\<lparr>calls := calls s @ [GetChatMember ch tgId]\<rparr>
      in case getChatMember T (calls s) ch tgId of
           Throw e \<Rightarrow>
             (Return False, s1\<lparr>console := console s1 @ [GetChatMemberError ch (message e)]\<rparr>)
         | Return member \<Rightarrow>
             (let status = js_and member (js_prop member ''status'')
              in if status = Str ''left'' \<or> status = Str ''kicked'' \<or> js_not status
                 then (Return False, s1)
                 else isMemberOfAllChannels_for T tgId rest s1))"

definition isMemberOfAllChannels :: "config \<Rightarrow> transport \<Rightarrow> int \<Rightarrow> state \<Rightarrow> bool result \<times> state" where
  "isMemberOfAllChannels C T tgId s =
     (if REQUIRED_CHANNELS C = [] then (Return True, s)
      else isMemberOfAllChannels_for T tgId (REQUIRED_CHANNELS C) s)"

section \<open>The broadcast engine\<close>

text \<open>
  A request to \<^verbatim>\<open>POST /admin/broadcast\<close>: the header \<^verbatim>\<open>x-admin-token\<close>, the query parameter
  \<^verbatim>\<open>admin_token\<close> and the properties of the body object that \<^verbatim>\<open>express.json()\<close> leaves in
  \<^verbatim>\<open>req.body\<close>. A response is a status and a JSON body.
\<close>

record request =
  header_x_admin_token :: jsval
  query_admin_token :: jsval
  body :: "(string \<times> jsval) list"

datatype response = Response nat jsval

text \<open>
  The \<^verbatim>\<open>for\<close> loop of the admin handler over \<open>usersCopy\<close>, with the two counters. A
  rejected membership check counts as false (\<^verbatim>\<open>.catch(()=>false)\<close>); the \<^verbatim>\<open>catch\<close> of the
  loop body writes a console line and increments \<open>failed\<close>.
\<close>

fun broadcast_for ::
  "config \<Rightarrow> transport \<Rightarrow> jsval \<Rightarrow> user list \<Rightarrow> nat \<times> nat \<Rightarrow> state \<Rightarrow> (nat \<times> nat) \<times> state" where
  "broadcast_for C T text [] (sent, failed) s = ((sent, failed), s)"
| "broadcast_for C T text (user # rest) (sent, failed) s =
     (case isMemberOfAllChannels C T (telegram_id user) s of
        (r, s1) \<Rightarrow>
          (let subscribed = (case r of Throw e \<Rightarrow> False | Return b \<Rightarrow> b)
           in if \<not> subscribed then broadcast_for C T text rest (sent, failed) s1
              else
                (let m = \<lparr>play_url = WEB_APP_URL C @ ''?token='' @ token user,
                          disable_notification = False\<rparr>;
                     s2 = s1\<lparr>calls := calls s1 @ [SendMessage (telegram_id user) text m]\<rparr>
                 in case sendMessage T (calls s1) (telegram_id user) text m of
                      Return _ \<Rightarrow> broadcast_for C T text rest (sent + 1, failed) s2
                    | Throw e \<Rightarrow>
                        broadcast_for C T text rest (sent, failed + 1)
                          (s2\<lparr>console := console s2 @ [BroadcastFailed (telegram_id user) (message e)]\<rparr>))))"

text \<open>The handler of \<^verbatim>\<open>POST /admin/broadcast\<close>.\<close>

definition admin_broadcast :: "config \<Rightarrow> transport \<Rightarrow> request \<Rightarrow> state \<Rightarrow> response \<times> state" where
  "admin_broadcast C T req s =
     (let provided = js_or (header_x_admin_token req) (query_admin_token req)
      in if js_not (Str (ADMIN_TOKEN C)) \<or> provided \<noteq> Str (ADMIN_TOKEN C)
         then (Response 403 (Obj [(''error'', Str ''forbidden'')]), s)
         else
           (let text = js_prop (Obj (body req)) ''text''
            in if js_not text
               then (Response 400 (Obj [(''error'', Str ''text required'')]), s)
               else
                 (case broadcast_for C T text (users s) (0, 0) s of
                    ((sent, failed), s') \<Rightarrow>
                      (Response 200
                         (Obj [(''ok'', Bool True), (''sent'', Num (of_nat sent)),
                               (''failed'', Num (of_nat failed))]), s'))))"

text \<open>
  The promo timer's callback: \<open>k\<close> is the value of
  \<^verbatim>\<open>Math.floor(Math.random()*PROMO_MESSAGES.length)\<close>. The loop has no counters and sends
  with \<^verbatim>\<open>disable_notification: true\<close>.
\<close>

fun promo_for :: "config \<Rightarrow> transport \<Rightarrow> jsval \<Rightarrow> user list \<Rightarrow> state \<Rightarrow> state" where
  "promo_for C T text [] s = s"
| "promo_for C T text (u # rest) s =
     (case isMemberOfAllChannels C T (telegram_id u) s of
        (r, s1) \<Rightarrow>
          (let subscribed = (case r of Throw e \<Rightarrow> False | Return b \<Rightarrow> b)
           in if \<not> subscribed then promo_for C T text rest s1
              else
                (let m = \<lparr>play_url = WEB_APP_URL C @ ''?token='' @ token u,
                          disable_notification = True\<rparr>;
                     s2 = s1\<lparr>calls := calls s1 @ [SendMessage (telegram_id u) text m]\<rparr>
                 in case sendMessage T (calls s1) (telegram_id u) text m of
                      Return _ \<Rightarrow> promo_for C T text rest s2
                    | Throw e \<Rightarrow>
                        promo_for C T text rest
                          (s2\<lparr>console := console s2 @ [PromoFailed (telegram_id u) (message e)]\<rparr>))))"

definition promo_tick :: "config \<Rightarrow> transport \<Rightarrow> nat \<Rightarrow> state \<Rightarrow> state" where
  "promo_tick C T k s =
     (let text = (if k < length (PROMO_MESSAGES C) then Str (PROMO_MESSAGES C ! k) else Undefined)
      in promo_for C T text (users s) s)"

section \<open>Notions of the specification\<close>

text \<open>
  A channel check fails when resolving the status raises a transport error, or the
  status is \<^verbatim>\<open>left\<close>, \<^verbatim>\<open>kicked\<close> or absent.
\<close>

definition status_of :: "jsval \<Rightarrow> jsval" where
  "status_of member = js_and member (js_prop member ''status'')"

definition check_fails :: "jsval result \<Rightarrow> bool" where
  "check_fails r =
     (case r of
        Throw e \<Rightarrow> True
      | Return member \<Rightarrow>
          status_of member = Str ''left'' \<or> status_of member = Str ''kicked'' \<or> js_not (status_of member))"

text \<open>The calls of \<^verbatim>\<open>getChatMember\<close> that checking the channels \<open>chs\<close> for \<open>tgId\<close> makes.\<close>

definition checks_of :: "int \<Rightarrow> string list \<Rightarrow> call list" where
  "checks_of tgId chs = map (\<lambda>chRaw. GetChatMember (channel_name chRaw) tgId) chs"

text \<open>
  The outcome of a broadcast pass for one recipient, in the words of the specification:
  the membership is verified afresh; a user who is not a member is skipped; otherwise one
  send is attempted, which succeeds or fails (the failure is logged). A pass takes the
  users of the snapshot one after the other, in snapshot order.
\<close>

datatype outcome = Skipped | Sent | Failed

definition deliver :: "config \<Rightarrow> transport \<Rightarrow> jsval \<Rightarrow> user \<Rightarrow> state \<Rightarrow> outcome \<times> state" where
  "deliver C T text u s =
     (case isMemberOfAllChannels C T (telegram_id u) s of
        (r, s1) \<Rightarrow>
          if r = Return True then
            (let m = \<lparr>play_url = WEB_APP_URL C @ ''?token='' @ token u, disable_notification = False\<rparr>;
                 s2 = s1\<lparr>calls := calls s1 @ [SendMessage (telegram_id u) text m]\<rparr>
             in case sendMessage T (calls s1) (telegram_id u) text m of
                  Return _ \<Rightarrow> (Sent, s2)
                | Throw e \<Rightarrow>
                    (Failed, s2\<lparr>console := console s2 @ [BroadcastFailed (telegram_id u) (message e)]\<rparr>))
          else (Skipped, s1))"

fun fan_out :: "config \<Rightarrow> transport \<Rightarrow> jsval \<Rightarrow> user list \<Rightarrow> state \<Rightarrow> outcome list \<times> state" where
  "fan_out C T text [] s = ([], s)"
| "fan_out C T text (u # us) s =
     (case deliver C T text u s of
        (out, s1) \<Rightarrow> (case fan_out C T text us s1 of (outs, s') \<Rightarrow> (out # outs, s')))"

text \<open>The recipients of the \<^verbatim>\<open>sendMessage\<close> calls among some calls, in the order of the calls.\<close>

fun recipients :: "call list \<Rightarrow> int list" where
  "recipients [] = []"
| "recipients (SendMessage tgId text m # cs) = tgId # recipients cs"
| "recipients (GetChatMember ch tgId # cs) = recipients cs"

text \<open>The users of a snapshot that a pass with the outcomes \<open>outs\<close> did not skip.\<close>

fun attempted :: "user list \<Rightarrow> outcome list \<Rightarrow> int list" where
  "attempted (u # us) (out # outs) =
     (if out = Skipped then attempted us outs else telegram_id u # attempted us outs)"
| "attempted us outs = []"

text \<open>
  The store can be written: the data directory exists or can be made, and the write does
  not fail.
\<close>

definition save_ok :: "fs_state \<Rightarrow> bool" where
  "save_ok f = ((dir_exists f \<or> mkdir_fails f = False) \<and> write_fails f = False)"

text \<open>
  A run of interactions: each one is an upsert with its own entropy, clock reading and
  sender, whatever it returns or throws.
\<close>

fun upserts ::
  "(user list \<Rightarrow> string) \<Rightarrow> ((nat \<Rightarrow> 8 word) \<times> nat \<times> tg_from) list \<Rightarrow> state \<Rightarrow> state" where
  "upserts JSON_stringify [] s = s"
| "upserts JSON_stringify ((entropy, now, from) # rest) s =
     upserts JSON_stringify rest (snd (addOrUpdateUser JSON_stringify entropy now from s))"

section \<open>Example inputs\<close>

text \<open>
  A bot with three required channels and four known users. In the example transport,
  the user 103 has left the channel \<^verbatim>\<open>@sponsor1\<close>, everybody else is a member of every
  channel, and sending to the user 102 fails.
\<close>

definition sample_config :: config where
  "sample_config =
     \<lparr>REQUIRED_CHANNELS = [''mychannel'', ''@sponsor1'', ''third''],
      WEB_APP_URL = ''https://game.example'',
      ADMIN_TOKEN = ''s3cret'',
      PROMO_MESSAGES = [''promo one'', ''promo two'', ''promo three'']\<rparr>"

definition sample_transport :: transport where
  "sample_transport =
     \<lparr>getChatMember = (\<lambda>hist ch tgId.
          if tgId = 103 \<and> ch = ''@sponsor1'' then Return (Obj [(''status'', Str ''left'')])
          else Return (Obj [(''status'', Str ''member'')])),
      sendMessage = (\<lambda>hist tgId msg m.
          if tgId = 102 then Throw (Error ''blocked by the user'') else Return ())\<rparr>"

definition sample_user :: "int \<Rightarrow> string \<Rightarrow> user" where
  "sample_user i tok =
     \<lparr>telegram_id = i, username = Null, first_name = Str ''User'', last_name = Null,
      token = tok, last_seen = 1000\<rparr>"

definition sample_fs :: fs_state where
  "sample_fs = \<lparr>dir_exists = True, mkdir_fails = False, write_fails = False, users_file = Missing\<rparr>"

definition sample_state :: state where
  "sample_state =
     \<lparr>users = [sample_user 101 ''aaaaaaaaaaaaaaaaaaaa'', sample_user 102 ''bbbbbbbbbbbbbbbbbbbb'',
               sample_user 103 ''cccccccccccccccccccc'', sample_user 104 ''dddddddddddddddddddd''],
      fs = sample_fs, calls = [], console = []\<rparr>"

definition sample_request :: request where
  "sample_request =
     \<lparr>header_x_admin_token = Str ''s3cret'', query_admin_token = Undefined,
      body = [(''text'', Str ''Sale!'')]\<rparr>"

text \<open>
  A transport in which \<^verbatim>\<open>getChatMember\<close> answers with a status outside the six that the
  Telegram Bot API names, and a configuration with one required channel.
\<close>

definition unknown_status_transport :: transport where
  "unknown_status_transport =
     \<lparr>getChatMember = (\<lambda>hist ch tgId. Return (Obj [(''status'', Str ''banned'')])),
      sendMessage = (\<lambda>hist tgId msg m. Return ())\<rparr>"

definition one_channel_config :: config where
  "one_channel_config =
     \<lparr>REQUIRED_CHANNELS = [''mychannel''], WEB_APP_URL = [], ADMIN_TOKEN = ''s3cret'',
      PROMO_MESSAGES = []\<rparr>"

text \<open>
  The registry examples: an empty registry, a sender, an entropy source whose bytes are
  \<open>0x00, 0x11, 0x22, \<dots>\<close>, and a rendering of the array that keeps the tokens (the theorems
  hold for every rendering). \<open>sample_JSON_parse\<close> is \<^verbatim>\<open>JSON.parse\<close> on the two texts the
  examples read.
\<close>

definition empty_state :: state where
  "empty_state = \<lparr>users = [], fs = sample_fs, calls = [], console = []\<rparr>"

definition sample_from :: "int \<Rightarrow> string \<Rightarrow> tg_from" where
  "sample_from i name =
     \<lparr>from_id = i, from_username = Str name, from_first_name = Undefined,
      from_last_name = Undefined\<rparr>"

definition sample_entropy :: "nat \<Rightarrow> 8 word" where
  "sample_entropy i = of_nat (17 * i)"

definition sample_JSON_stringify :: "user list \<Rightarrow> string" where
  "sample_JSON_stringify us = concat (map (\<lambda>u. token u @ '';'') us)"

definition sample_JSON_parse :: "string \<Rightarrow> jsval result" where
  "sample_JSON_parse raw =
     (if raw = ''{}'' then Return (Obj [])
      else if raw = ''[]'' then Return (Arr [])
      else Throw (Error ''SyntaxError''))"

definition ff_entropy :: "nat \<Rightarrow> 8 word" where
  "ff_entropy i = 255"

definition read_only_fs :: fs_state where
  "read_only_fs = sample_fs\<lparr>write_fails := True\<rparr>"

lemmas sample_defs =
  sample_config_def sample_transport_def sample_user_def sample_fs_def sample_state_def
  sample_request_def unknown_status_transport_def one_channel_config_def empty_state_def
  sample_from_def sample_entropy_def sample_JSON_stringify_def sample_JSON_parse_def
  ff_entropy_def read_only_fs_def

lemmas verifier_defs = isMemberOfAllChannels_def channel_name_def js_and_def js_or_def Let_def

section \<open>The membership verifier: what a check does\<close>

text \<open>The verifier touches neither the registry nor the file system.\<close>

lemma for_frame:
  "users (snd (isMemberOfAllChannels_for T tgId chs s)) = users s \<and>
   fs (snd (isMemberOfAllChannels_for T tgId chs s)) = fs s"
  by (induction chs arbitrary: s) (auto simp: Let_def split: result.splits)

lemma isMember_frame:
  "users (snd (isMemberOfAllChannels C T tgId s)) = users s \<and>
   fs (snd (isMemberOfAllChannels C T tgId s)) = fs s"
  by (simp add: isMemberOfAllChannels_def for_frame)

text \<open>The loop always returns a value: its only throwing call stands in the \<^verbatim>\<open>try\<close>.\<close>

lemma for_returns: "\<exists>b. fst (isMemberOfAllChannels_for T tgId chs s) = Return b"
  by (induction chs arbitrary: s) (auto simp: Let_def split: result.splits)

text \<open>
  While the checks pass, the loop goes on: the channels \<open>pre\<close> are checked one after the
  other, each with the calls made before it.
\<close>

lemma for_prefix_pass:
  assumes "\<forall>i<length pre. \<not> check_fails (getChatMember T (calls s @ checks_of tgId (take i pre)) (channel_name (pre ! i)) tgId)"
  shows "isMemberOfAllChannels_for T tgId (pre @ rest) s =
         isMemberOfAllChannels_for T tgId rest (s\<lparr>calls := calls s @ checks_of tgId pre\<rparr>)"
  using assms
proof (induction pre arbitrary: s)
  case Nil
  then show ?case by (simp add: checks_of_def)
next
  case (Cons chRaw pre)
  let ?s1 = "s\<lparr>calls := calls s @ [GetChatMember (channel_name chRaw) tgId]\<rparr>"
  from Cons.prems have h0: "\<not> check_fails (getChatMember T (calls s) (channel_name chRaw) tgId)"
    by (auto simp: checks_of_def dest: spec[where x=0])
  have hrest: "\<forall>i<length pre. \<not> check_fails (getChatMember T (calls ?s1 @ checks_of tgId (take i pre)) (channel_name (pre ! i)) tgId)"
  proof (intro allI impI)
    fix i assume "i < length pre"
    with Cons.prems have "\<not> check_fails (getChatMember T (calls s @ checks_of tgId (take (Suc i) (chRaw # pre))) (channel_name ((chRaw # pre) ! Suc i)) tgId)"
      by (metis Suc_less_eq length_Cons)
    then show "\<not> check_fails (getChatMember T (calls ?s1 @ checks_of tgId (take i pre)) (channel_name (pre ! i)) tgId)"
      by (simp add: checks_of_def)
  qed
  from h0 have step: "isMemberOfAllChannels_for T tgId ((chRaw # pre) @ rest) s = isMemberOfAllChannels_for T tgId (pre @ rest) ?s1"
    by (auto simp: check_fails_def status_of_def Let_def split: result.splits)
  show ?case
    unfolding step Cons.IH[OF hrest] by (simp add: checks_of_def)
qed

lemma for_fail_here:
  assumes "check_fails (getChatMember T (calls s) (channel_name chRaw) tgId)"
  shows "fst (isMemberOfAllChannels_for T tgId (chRaw # post) s) = Return False \<and>
         calls (snd (isMemberOfAllChannels_for T tgId (chRaw # post) s)) =
           calls s @ [GetChatMember (channel_name chRaw) tgId]"
  using assms
  by (auto simp: check_fails_def status_of_def Let_def split: result.splits)

text \<open>
  When no check fails, every channel is checked and the verifier returns true. A status
  string other than \<^verbatim>\<open>left\<close>, \<^verbatim>\<open>kicked\<close> and the empty string does not fail a check.
\<close>

lemma for_all_pass:
  assumes "\<forall>i<length chs. \<not> check_fails
      (getChatMember T (calls s @ checks_of tgId (take i chs)) (channel_name (chs ! i)) tgId)"
  shows "isMemberOfAllChannels_for T tgId chs s =
         (Return True, s\<lparr>calls := calls s @ checks_of tgId chs\<rparr>)"
  using for_prefix_pass[OF assms, of "[]"] by simp

lemma other_status_passes:
  assumes "st \<noteq> ''left''" and "st \<noteq> ''kicked''" and "st \<noteq> []"
  shows "\<not> check_fails (Return (Obj [(''status'', Str st)]))"
  using assms by (simp add: check_fails_def status_of_def js_and_def)

text \<open>
  C2. The claim: a user counts as a member of a channel only if the status is member,
  creator, administrator or restricted, and any other status value makes the verifier
  return false. The code tests for \<^verbatim>\<open>left\<close>, \<^verbatim>\<open>kicked\<close> and a falsy status only,
  while its comment lists the four statuses that count as subscribed. Evaluated
  with one required channel and the status \<^verbatim>\<open>banned\<close>, the verifier returns true.
\<close>

theorem isMember_unknown_status:
  "fst (isMemberOfAllChannels one_channel_config unknown_status_transport 101 sample_state) = Return True"
  by (simp add: sample_defs verifier_defs)

text \<open>
  C7. For every list of required channels and every identity, the verifier never throws;
  and when the checks of the channels \<open>pre\<close> pass and the check of the next channel
  \<open>chRaw\<close> fails (a transport error, or the status left, kicked or absent), it returns
  false and the calls it has made are the checks of \<open>pre\<close> and of \<open>chRaw\<close>, in this
  order: none of the remaining channels \<open>post\<close> is checked.
\<close>

theorem isMember_short_circuit:
  "(\<exists>b. fst (isMemberOfAllChannels C T tgId s) = Return b) \<and>
   (REQUIRED_CHANNELS C = pre @ chRaw # post \<and>
    (\<forall>i<length pre. \<not> check_fails
        (getChatMember T (calls s @ checks_of tgId (take i pre)) (channel_name (pre ! i)) tgId)) \<and>
    check_fails (getChatMember T (calls s @ checks_of tgId pre) (channel_name chRaw) tgId)
    \<longrightarrow> fst (isMemberOfAllChannels C T tgId s) = Return False \<and>
        calls (snd (isMemberOfAllChannels C T tgId s)) = calls s @ checks_of tgId (pre @ [chRaw]))"
proof (intro conjI impI)
  show "\<exists>b. fst (isMemberOfAllChannels C T tgId s) = Return b"
    using for_returns[of T tgId "REQUIRED_CHANNELS C" s]
    by (auto simp: isMemberOfAllChannels_def)
next
  assume h: "REQUIRED_CHANNELS C = pre @ chRaw # post \<and>
    (\<forall>i<length pre. \<not> check_fails
        (getChatMember T (calls s @ checks_of tgId (take i pre)) (channel_name (pre ! i)) tgId)) \<and>
    check_fails (getChatMember T (calls s @ checks_of tgId pre) (channel_name chRaw) tgId)"
  let ?s1 = "s\<lparr>calls := calls s @ checks_of tgId pre\<rparr>"
  from h have run: "isMemberOfAllChannels C T tgId s = isMemberOfAllChannels_for T tgId (chRaw # post) ?s1"
    by (simp add: isMemberOfAllChannels_def for_prefix_pass)
  from h have "check_fails (getChatMember T (calls ?s1) (channel_name chRaw) tgId)" by simp
  from for_fail_here[OF this, of post]
  show "fst (isMemberOfAllChannels C T tgId s) = Return False"
    and "calls (snd (isMemberOfAllChannels C T tgId s)) = calls s @ checks_of tgId (pre @ [chRaw])"
    unfolding run by (simp_all add: checks_of_def)
qed

theorem isMember_short_circuit_witness:
  "REQUIRED_CHANNELS sample_config = [''mychannel''] @ ''@sponsor1'' # [''third''] \<and>
   check_fails (getChatMember sample_transport [] ''@mychannel'' 103) = False \<and>
   check_fails (getChatMember sample_transport [GetChatMember ''@mychannel'' 103] ''@sponsor1'' 103) \<and>
   isMemberOfAllChannels sample_config sample_transport 103 sample_state =
     (Return False,
      sample_state\<lparr>calls := [GetChatMember ''@mychannel'' 103, GetChatMember ''@sponsor1'' 103]\<rparr>)"
proof -
  have pre: "\<forall>i<length [''mychannel''].
      \<not> check_fails (getChatMember sample_transport
            (calls sample_state @ checks_of 103 (take i [''mychannel'']))
            (channel_name ([''mychannel''] ! i)) 103)"
    by (simp add: sample_defs check_fails_def status_of_def checks_of_def verifier_defs)
  have here: "check_fails (getChatMember sample_transport
      (calls sample_state @ checks_of 103 [''mychannel'']) (channel_name ''@sponsor1'') 103)"
    by (simp add: sample_defs check_fails_def status_of_def checks_of_def verifier_defs)
  have chans: "REQUIRED_CHANNELS sample_config = [''mychannel''] @ ''@sponsor1'' # [''third'']"
    by (simp add: sample_defs)
  from isMember_short_circuit[of sample_config sample_transport 103 sample_state
      "[''mychannel'']" "''@sponsor1''" "[''third'']"] pre here chans
  have "fst (isMemberOfAllChannels sample_config sample_transport 103 sample_state) = Return False"
    by blast
  then show ?thesis
    by (simp add: sample_defs check_fails_def status_of_def verifier_defs)
qed

section \<open>The broadcast engine\<close>

text \<open>A pass changes the calls and the console only.\<close>

lemma broadcast_for_frame:
  "users (snd (broadcast_for C T text us acc s)) = users s \<and>
   fs (snd (broadcast_for C T text us acc s)) = fs s"
proof (induction us arbitrary: acc s)
  case Nil
  then show ?case by (cases acc) simp
next
  case (Cons u us)
  obtain sent failed where acc: "acc = (sent, failed)" by (cases acc)
  obtain r s1 where m: "isMemberOfAllChannels C T (telegram_id u) s = (r, s1)"
    by (cases "isMemberOfAllChannels C T (telegram_id u) s")
  from isMember_frame[of C T "telegram_id u" s] m
  have f1: "users s1 = users s" "fs s1 = fs s" by simp_all
  show ?case
    unfolding acc
    by (simp add: m Let_def Cons.IH f1 split: result.splits)
qed

lemma promo_for_frame:
  "users (promo_for C T text us s) = users s \<and> fs (promo_for C T text us s) = fs s"
proof (induction us arbitrary: s)
  case Nil
  then show ?case by simp
next
  case (Cons u us)
  obtain r s1 where m: "isMemberOfAllChannels C T (telegram_id u) s = (r, s1)"
    by (cases "isMemberOfAllChannels C T (telegram_id u) s")
  from isMember_frame[of C T "telegram_id u" s] m
  have f1: "users s1 = users s" "fs s1 = fs s" by simp_all
  show ?case
    by (simp add: m Let_def Cons.IH f1 split: result.splits)
qed

text \<open>
  C9. A full broadcast pass, of the admin handler or of the promo timer, leaves the
  in-memory user list as it was, record by record, and leaves the file system, and with
  it the persisted store, as it was.
\<close>

theorem broadcast_pass_frame:
  "users (snd (admin_broadcast C T req s)) = users s \<and>
   fs (snd (admin_broadcast C T req s)) = fs s \<and>
   users (promo_tick C T k s) = users s \<and>
   fs (promo_tick C T k s) = fs s"
proof -
  have a: "users (snd (admin_broadcast C T req s)) = users s \<and> fs (snd (admin_broadcast C T req s)) = fs s"
    using broadcast_for_frame[of C T "js_prop (Obj (body req)) ''text''" "users s" "(0, 0)" s]
    by (auto simp: admin_broadcast_def Let_def split: prod.splits)
  have p: "users (promo_tick C T k s) = users s \<and> fs (promo_tick C T k s) = fs s"
    by (simp add: promo_tick_def Let_def promo_for_frame)
  from a p show ?thesis by simp
qed

theorem broadcast_pass_frame_witness:
  "users (snd (admin_broadcast sample_config sample_transport sample_request sample_state)) =
     users sample_state \<and>
   fs (snd (admin_broadcast sample_config sample_transport sample_request sample_state)) =
     fs sample_state \<and>
   users (promo_tick sample_config sample_transport 1 sample_state) = users sample_state \<and>
   fs (promo_tick sample_config sample_transport 1 sample_state) = fs sample_state \<and>
   recipients (calls (snd (admin_broadcast sample_config sample_transport sample_request sample_state))) =
     [101, 102, 104] \<and>
   recipients (calls (promo_tick sample_config sample_transport 1 sample_state)) = [101, 102, 104]"
proof -
  have sends: "recipients (calls (snd (admin_broadcast sample_config sample_transport sample_request
        sample_state))) = [101, 102, 104] \<and>
      recipients (calls (promo_tick sample_config sample_transport 1 sample_state)) = [101, 102, 104]"
    by (simp add: sample_defs admin_broadcast_def promo_tick_def verifier_defs)
  from broadcast_pass_frame[of sample_config sample_transport sample_request sample_state 1] sends
  show ?thesis by simp
qed

text \<open>
  C5. For every request, if the configured admin token is empty, or the presented token
  (the header, or the query parameter when the header is absent or empty) is not the
  configured token, the response is 403 with the body \<^verbatim>\<open>{error:"forbidden"}\<close> and the state
  is returned as it was, so no call reaches the Telegram client, whatever the body holds.
\<close>

theorem admin_broadcast_forbidden:
  assumes "ADMIN_TOKEN C = [] \<or> js_or (header_x_admin_token req) (query_admin_token req) \<noteq> Str (ADMIN_TOKEN C)"
  shows "admin_broadcast C T req s = (Response 403 (Obj [(''error'', Str ''forbidden'')]), s)"
  using assms by (auto simp: admin_broadcast_def Let_def)

theorem admin_broadcast_forbidden_witness:
  "(ADMIN_TOKEN sample_config = [] \<or>
    js_or (header_x_admin_token (sample_request\<lparr>header_x_admin_token := Str ''guess''\<rparr>))
          (query_admin_token (sample_request\<lparr>header_x_admin_token := Str ''guess''\<rparr>))
      \<noteq> Str (ADMIN_TOKEN sample_config)) \<and>
   admin_broadcast sample_config sample_transport
       (sample_request\<lparr>header_x_admin_token := Str ''guess''\<rparr>) sample_state =
     (Response 403 (Obj [(''error'', Str ''forbidden'')]), sample_state) \<and>
   admin_broadcast (sample_config\<lparr>ADMIN_TOKEN := []\<rparr>) sample_transport
       (sample_request\<lparr>header_x_admin_token := Str []\<rparr>) sample_state =
     (Response 403 (Obj [(''error'', Str ''forbidden'')]), sample_state)"
proof -
  let ?req = "sample_request\<lparr>header_x_admin_token := Str ''guess''\<rparr>"
  have wrong: "ADMIN_TOKEN sample_config = [] \<or>
      js_or (header_x_admin_token ?req) (query_admin_token ?req) \<noteq> Str (ADMIN_TOKEN sample_config)"
    by (simp add: sample_defs js_or_def)
  have empty: "ADMIN_TOKEN (sample_config\<lparr>ADMIN_TOKEN := []\<rparr>) = [] \<or>
      js_or (header_x_admin_token (sample_request\<lparr>header_x_admin_token := Str []\<rparr>))
            (query_admin_token (sample_request\<lparr>header_x_admin_token := Str []\<rparr>))
        \<noteq> Str (ADMIN_TOKEN (sample_config\<lparr>ADMIN_TOKEN := []\<rparr>))"
    by simp
  from wrong admin_broadcast_forbidden[where T = sample_transport and s = sample_state, OF wrong]
    admin_broadcast_forbidden[where T = sample_transport and s = sample_state, OF empty]
  show ?thesis by simp
qed

text \<open>
  C8. For every request that passes the authorization, if the text field of the body is
  missing or empty (or any other falsy value), the response is 400 with the body
  \<^verbatim>\<open>{error:"text required"}\<close> and the state is returned as it was: nothing is sent.
\<close>

theorem admin_broadcast_text_required:
  assumes "ADMIN_TOKEN C \<noteq> []"
    and "js_or (header_x_admin_token req) (query_admin_token req) = Str (ADMIN_TOKEN C)"
    and "js_not (js_prop (Obj (body req)) ''text'')"
  shows "admin_broadcast C T req s = (Response 400 (Obj [(''error'', Str ''text required'')]), s)"
  using assms by (simp add: admin_broadcast_def Let_def)

theorem admin_broadcast_text_required_witness:
  "ADMIN_TOKEN sample_config \<noteq> [] \<and>
   js_or (header_x_admin_token (sample_request\<lparr>body := []\<rparr>))
         (query_admin_token (sample_request\<lparr>body := []\<rparr>)) = Str (ADMIN_TOKEN sample_config) \<and>
   js_not (js_prop (Obj (body (sample_request\<lparr>body := []\<rparr>))) ''text'') \<and>
   admin_broadcast sample_config sample_transport (sample_request\<lparr>body := []\<rparr>) sample_state =
     (Response 400 (Obj [(''error'', Str ''text required'')]), sample_state) \<and>
   admin_broadcast sample_config sample_transport
       (sample_request\<lparr>body := [(''text'', Str [])]\<rparr>) sample_state =
     (Response 400 (Obj [(''error'', Str ''text required'')]), sample_state)"
proof -
  let ?missing = "sample_request\<lparr>body := []\<rparr>"
  let ?empty = "sample_request\<lparr>body := [(''text'', Str [])]\<rparr>"
  have tok: "ADMIN_TOKEN sample_config \<noteq> []" by (simp add: sample_defs)
  have auth1: "js_or (header_x_admin_token ?missing) (query_admin_token ?missing) =
      Str (ADMIN_TOKEN sample_config)"
    by (simp add: sample_defs js_or_def)
  have auth2: "js_or (header_x_admin_token ?empty) (query_admin_token ?empty) =
      Str (ADMIN_TOKEN sample_config)"
    by (simp add: sample_defs js_or_def)
  have no_text: "js_not (js_prop (Obj (body ?missing)) ''text'')" by simp
  have empty_text: "js_not (js_prop (Obj (body ?empty)) ''text'')" by simp
  from tok auth1 no_text
    admin_broadcast_text_required[where T = sample_transport and s = sample_state, OF tok auth1 no_text]
    admin_broadcast_text_required[where T = sample_transport and s = sample_state, OF tok auth2 empty_text]
  show ?thesis by simp
qed

text \<open>
  The calls of a pass: the verifier adds membership checks only, a delivery adds one send
  unless the user is skipped, and a pass adds the sends of the users it did not skip, in
  snapshot order.
\<close>

lemma recipients_append: "recipients (xs @ ys) = recipients xs @ recipients ys"
  by (induction xs rule: recipients.induct) simp_all

lemma for_calls:
  "\<exists>cs. calls (snd (isMemberOfAllChannels_for T tgId chs s)) = calls s @ cs \<and> recipients cs = []"
proof (induction chs arbitrary: s)
  case Nil
  then show ?case by simp
next
  case (Cons chRaw chs)
  let ?s1 = "s\<lparr>calls := calls s @ [GetChatMember (channel_name chRaw) tgId]\<rparr>"
  from Cons.IH[of ?s1] obtain cs where
    cs: "calls (snd (isMemberOfAllChannels_for T tgId chs ?s1)) = calls ?s1 @ cs" "recipients cs = []"
    by blast
  show ?case
  proof (cases "check_fails (getChatMember T (calls s) (channel_name chRaw) tgId)")
    case True
    from for_fail_here[OF True, of chs] show ?thesis by auto
  next
    case False
    then have "isMemberOfAllChannels_for T tgId (chRaw # chs) s = isMemberOfAllChannels_for T tgId chs ?s1"
      by (auto simp: check_fails_def status_of_def Let_def split: result.splits)
    with cs show ?thesis
      by (intro exI[of _ "GetChatMember (channel_name chRaw) tgId # cs"]) simp
  qed
qed

lemma isMember_calls:
  "\<exists>cs. calls (snd (isMemberOfAllChannels C T tgId s)) = calls s @ cs \<and> recipients cs = []"
  using for_calls[of T tgId "REQUIRED_CHANNELS C" s]
  by (auto simp: isMemberOfAllChannels_def)

lemma deliver_calls:
  "\<exists>cs. calls (snd (deliver C T msg u s)) = calls s @ cs \<and>
        recipients cs = (if fst (deliver C T msg u s) = Skipped then [] else [telegram_id u])"
proof -
  obtain r s1 where m: "isMemberOfAllChannels C T (telegram_id u) s = (r, s1)"
    by (cases "isMemberOfAllChannels C T (telegram_id u) s")
  from isMember_calls[of C T "telegram_id u" s] m obtain cs where
    cs: "calls s1 = calls s @ cs" "recipients cs = []" by auto
  show ?thesis
  proof (cases "r = Return True")
    case False
    with m cs show ?thesis by (simp add: deliver_def)
  next
    case True
    let ?m = "\<lparr>play_url = WEB_APP_URL C @ ''?token='' @ token u, disable_notification = False\<rparr>"
    have "calls (snd (deliver C T msg u s)) = calls s @ (cs @ [SendMessage (telegram_id u) msg ?m])"
      and "fst (deliver C T msg u s) \<noteq> Skipped"
      using m True cs by (auto simp: deliver_def Let_def split: result.splits)
    moreover have "recipients (cs @ [SendMessage (telegram_id u) msg ?m]) = [telegram_id u]"
      using cs by (simp add: recipients_append)
    ultimately show ?thesis by auto
  qed
qed

lemma fan_out_calls:
  "\<exists>cs. calls (snd (fan_out C T msg us s)) = calls s @ cs \<and>
        recipients cs = attempted us (fst (fan_out C T msg us s))"
proof (induction us arbitrary: s)
  case Nil
  then show ?case by simp
next
  case (Cons u us)
  obtain out s1 where d: "deliver C T msg u s = (out, s1)" by (cases "deliver C T msg u s")
  obtain outs s' where f: "fan_out C T msg us s1 = (outs, s')" by (cases "fan_out C T msg us s1")
  from deliver_calls[of C T msg u s] d obtain cs1 where
    cs1: "calls s1 = calls s @ cs1" "recipients cs1 = (if out = Skipped then [] else [telegram_id u])"
    by auto
  from Cons.IH[of s1] f obtain cs2 where
    cs2: "calls s' = calls s1 @ cs2" "recipients cs2 = attempted us outs" by auto
  have "calls (snd (fan_out C T msg (u # us) s)) = calls s @ (cs1 @ cs2)"
    using d f cs1 cs2 by simp
  moreover have "recipients (cs1 @ cs2) = attempted (u # us) (fst (fan_out C T msg (u # us) s))"
    using d f cs1 cs2 by (simp add: recipients_append)
  ultimately show ?case by blast
qed

lemma fan_out_length: "length (fst (fan_out C T msg us s)) = length us"
proof (induction us arbitrary: s)
  case Nil
  then show ?case by simp
next
  case (Cons u us)
  obtain out s1 where d: "deliver C T msg u s = (out, s1)" by (cases "deliver C T msg u s")
  obtain outs s' where f: "fan_out C T msg us s1 = (outs, s')" by (cases "fan_out C T msg us s1")
  from Cons.IH[of s1] d f show ?case by simp
qed

text \<open>The loop of the handler counts the outcomes of the pass.\<close>

lemma broadcast_for_fan_out:
  "broadcast_for C T msg us (sent, failed) s =
     ((sent + count_list (fst (fan_out C T msg us s)) Sent,
       failed + count_list (fst (fan_out C T msg us s)) Failed),
      snd (fan_out C T msg us s))"
proof (induction us arbitrary: sent failed s)
  case Nil
  then show ?case by simp
next
  case (Cons u us)
  obtain r s1 where m: "isMemberOfAllChannels C T (telegram_id u) s = (r, s1)"
    by (cases "isMemberOfAllChannels C T (telegram_id u) s")
  show ?case
  proof (cases r)
    case (Throw e)
    with m show ?thesis by (simp add: deliver_def Cons.IH split: prod.splits)
  next
    case (Return b)
    show ?thesis
    proof (cases b)
      case False
      with m Return show ?thesis by (simp add: deliver_def Cons.IH split: prod.splits)
    next
      case True
      with m Return show ?thesis
        by (simp add: deliver_def Let_def Cons.IH split: prod.splits result.splits)
    qed
  qed
qed

text \<open>
  C1. For every registry snapshot and every request with a valid authorization and a
  non-empty text, the handler makes one pass over the users of the snapshot in snapshot
  order: there is one outcome for each user; a user whose fresh membership check fails is
  skipped and counted nowhere; a successful send counts in \<open>sent\<close>, a failed send counts
  in \<open>failed\<close> and the pass goes on with the next user. The response is 200 with
  \<^verbatim>\<open>{ok:true, sent, failed}\<close>, the two counts being the numbers of sent and of failed
  outcomes, and the sends the transport has seen are those of the users not skipped, in
  snapshot order.
\<close>

theorem admin_broadcast_counts:
  assumes "ADMIN_TOKEN C \<noteq> []"
    and "js_or (header_x_admin_token req) (query_admin_token req) = Str (ADMIN_TOKEN C)"
    and "js_not (js_prop (Obj (body req)) ''text'') = False"
  shows "\<exists>outs s'.
           fan_out C T (js_prop (Obj (body req)) ''text'') (users s) s = (outs, s') \<and>
           length outs = length (users s) \<and>
           admin_broadcast C T req s =
             (Response 200
                (Obj [(''ok'', Bool True),
                      (''sent'', Num (of_nat (count_list outs Sent))),
                      (''failed'', Num (of_nat (count_list outs Failed)))]), s') \<and>
           recipients (drop (length (calls s)) (calls s')) = attempted (users s) outs"
proof -
  let ?text = "js_prop (Obj (body req)) ''text''"
  obtain outs s' where f: "fan_out C T ?text (users s) s = (outs, s')"
    by (cases "fan_out C T ?text (users s) s")
  from fan_out_length[of C T ?text "users s" s] f have len: "length outs = length (users s)" by simp
  from fan_out_calls[of C T ?text "users s" s] f obtain cs where
    cs: "calls s' = calls s @ cs" "recipients cs = attempted (users s) outs" by auto
  have resp: "admin_broadcast C T req s =
             (Response 200
                (Obj [(''ok'', Bool True),
                      (''sent'', Num (of_nat (count_list outs Sent))),
                      (''failed'', Num (of_nat (count_list outs Failed)))]), s')"
    using assms f by (simp add: admin_broadcast_def Let_def broadcast_for_fan_out)
  from f len resp cs show ?thesis by simp
qed

theorem admin_broadcast_counts_witness:
  "ADMIN_TOKEN sample_config \<noteq> [] \<and>
   js_or (header_x_admin_token sample_request) (query_admin_token sample_request) =
     Str (ADMIN_TOKEN sample_config) \<and>
   js_not (js_prop (Obj (body sample_request)) ''text'') = False \<and>
   fst (fan_out sample_config sample_transport (Str ''Sale!'') (users sample_state) sample_state) =
     [Sent, Failed, Skipped, Sent] \<and>
   fst (admin_broadcast sample_config sample_transport sample_request sample_state) =
     Response 200 (Obj [(''ok'', Bool True), (''sent'', Num 2), (''failed'', Num 1)]) \<and>
   recipients (calls (snd (admin_broadcast sample_config sample_transport sample_request sample_state))) =
     [101, 102, 104]"
proof -
  have tok: "ADMIN_TOKEN sample_config \<noteq> []" by (simp add: sample_defs)
  have auth: "js_or (header_x_admin_token sample_request) (query_admin_token sample_request) =
      Str (ADMIN_TOKEN sample_config)"
    by (simp add: sample_defs js_or_def)
  have txt_ok: "js_not (js_prop (Obj (body sample_request)) ''text'') = False"
    by (simp add: sample_defs)
  have outs: "fst (fan_out sample_config sample_transport (Str ''Sale!'') (users sample_state)
        sample_state) = [Sent, Failed, Skipped, Sent]"
    by (simp add: sample_defs deliver_def verifier_defs)
  have body_text: "js_prop (Obj (body sample_request)) ''text'' = Str ''Sale!''"
    by (simp add: sample_defs)
  have no_calls: "calls sample_state = []" by (simp add: sample_defs)
  from admin_broadcast_counts[where T = sample_transport and s = sample_state, OF tok auth txt_ok]
  obtain outs' s' where
    run: "fan_out sample_config sample_transport (js_prop (Obj (body sample_request)) ''text'')
            (users sample_state) sample_state = (outs', s')"
    and resp: "admin_broadcast sample_config sample_transport sample_request sample_state =
            (Response 200
               (Obj [(''ok'', Bool True),
                     (''sent'', Num (of_nat (count_list outs' Sent))),
                     (''failed'', Num (of_nat (count_list outs' Failed)))]), s')"
    and sends: "recipients (drop (length (calls sample_state)) (calls s')) =
            attempted (users sample_state) outs'"
    by blast
  from run outs body_text have outs': "outs' = [Sent, Failed, Skipped, Sent]" by simp
  have who: "attempted (users sample_state) [Sent, Failed, Skipped, Sent] = [101, 102, 104]"
    by (simp add: sample_defs)
  from tok auth txt_ok outs resp sends outs' who no_calls show ?thesis by simp
qed

section \<open>The user registry\<close>

text \<open>Saving succeeds exactly when the store can be written, and then it still can.\<close>

lemma saveUsers_ok:
  assumes "save_ok f"
  shows "\<exists>f'. saveUsers js us f = (Return (), f') \<and> save_ok f'"
  using assms
  by (auto simp: save_ok_def saveUsers_def ensureDataDir_def writeFileSync_def)

lemma saveUsers_not_ok:
  assumes "\<not> save_ok f"
  shows "\<exists>e f'. saveUsers js us f = (Throw e, f')"
  using assms
  by (auto simp: save_ok_def saveUsers_def ensureDataDir_def writeFileSync_def)

text \<open>Looking a user up after the array has changed.\<close>

lemma findUserById_id: "findUserById us i = Some u \<Longrightarrow> telegram_id u = i"
  by (induction us) (auto simp: findUserById_def split: if_splits)

lemma find_update_found_same:
  assumes "findUserById us i = Some u0" and "telegram_id u' = i"
  shows "findUserById (update_found i u' us) i = Some u'"
  using assms by (induction us) (auto simp: findUserById_def split: if_splits)

lemma find_update_found_other:
  assumes "telegram_id u' = j" and "j \<noteq> i"
  shows "findUserById (update_found j u' us) i = findUserById us i"
  using assms by (induction us) (auto simp: findUserById_def)

lemma find_push_known:
  assumes "findUserById us i = Some u"
  shows "findUserById (us @ [v]) i = Some u"
  using assms by (induction us) (auto simp: findUserById_def split: if_splits)

lemma find_push_new:
  assumes "findUserById us i = None" and "telegram_id v = i"
  shows "findUserById (us @ [v]) i = Some v"
  using assms by (induction us) (auto simp: findUserById_def split: if_splits)

text \<open>What an upsert does to the array, whatever the write does.\<close>

lemma upsert_new:
  assumes "findUserById (users s) (from_id from) = None"
  shows "\<exists>f'. snd (addOrUpdateUser js en t from s) =
           s\<lparr>users := users s @ [\<lparr>telegram_id = from_id from,
                    username = js_or (from_username from) Null,
                    first_name = js_or (from_first_name from) Null,
                    last_name = js_or (from_last_name from) Null,
                    token = toString_hex (randomBytes en 10),
                    last_seen = t\<rparr>], fs := f'\<rparr>"
  using assms
  by (auto simp: addOrUpdateUser_def Let_def split: prod.splits result.splits)

lemma upsert_known:
  assumes "findUserById (users s) (from_id from) = Some u0"
  shows "\<exists>f'. snd (addOrUpdateUser js en t from s) =
           s\<lparr>users := update_found (from_id from)
                  (u0\<lparr>username := js_or (from_username from) (username u0),
                      first_name := js_or (from_first_name from) (first_name u0),
                      last_name := js_or (from_last_name from) (last_name u0),
                      last_seen := t\<rparr>) (users s), fs := f'\<rparr>"
  using assms
  by (auto simp: addOrUpdateUser_def Let_def split: prod.splits result.splits)

lemma upsert_registers:
  "\<exists>u. findUserById (users (snd (addOrUpdateUser js en t from s))) (from_id from) = Some u \<and>
        telegram_id u = from_id from \<and> last_seen u = t \<and>
        token u = (case findUserById (users s) (from_id from) of
                     None \<Rightarrow> toString_hex (randomBytes en 10) | Some u0 \<Rightarrow> token u0)"
proof (cases "findUserById (users s) (from_id from)")
  case None
  from upsert_new[OF None, of js en t] obtain f' where
    "snd (addOrUpdateUser js en t from s) =
           s\<lparr>users := users s @ [\<lparr>telegram_id = from_id from,
                    username = js_or (from_username from) Null,
                    first_name = js_or (from_first_name from) Null,
                    last_name = js_or (from_last_name from) Null,
                    token = toString_hex (randomBytes en 10),
                    last_seen = t\<rparr>], fs := f'\<rparr>" by blast
  with None show ?thesis by (simp add: find_push_new)
next
  case (Some u0)
  let ?u = "u0\<lparr>username := js_or (from_username from) (username u0),
                      first_name := js_or (from_first_name from) (first_name u0),
                      last_name := js_or (from_last_name from) (last_name u0),
                      last_seen := t\<rparr>"
  from upsert_known[OF Some, of js en t] obtain f' where
    "snd (addOrUpdateUser js en t from s) = s\<lparr>users := update_found (from_id from) ?u (users s), fs := f'\<rparr>"
    by blast
  moreover have "telegram_id ?u = from_id from" using findUserById_id[OF Some] by simp
  ultimately show ?thesis using Some find_update_found_same[OF Some, of ?u] by simp
qed

text \<open>
  What an upsert returns: the registered record when the store can be written, an
  exception when it cannot. It writes no console line and calls no transport.
\<close>

lemma upsert_result:
  "console (snd (addOrUpdateUser js en t from s)) = console s \<and>
   calls (snd (addOrUpdateUser js en t from s)) = calls s \<and>
   (save_ok (fs s) \<longrightarrow>
      fst (addOrUpdateUser js en t from s) =
        Return (the (findUserById (users (snd (addOrUpdateUser js en t from s))) (from_id from))) \<and>
      save_ok (fs (snd (addOrUpdateUser js en t from s)))) \<and>
   (\<not> save_ok (fs s) \<longrightarrow> (\<exists>e. fst (addOrUpdateUser js en t from s) = Throw e))"

proof (cases "findUserById (users s) (from_id from)")
  case None
  let ?u = "\<lparr>telegram_id = from_id from,
                    username = js_or (from_username from) Null,
                    first_name = js_or (from_first_name from) Null,
                    last_name = js_or (from_last_name from) Null,
                    token = toString_hex (randomBytes en 10),
                    last_seen = t\<rparr>"
  show ?thesis
  proof (cases "save_ok (fs s)")
    case True
    from saveUsers_ok[OF True, of js "users s @ [?u]"] obtain f' where
      "saveUsers js (users s @ [?u]) (fs s) = (Return (), f')" "save_ok f'" by blast
    with None True show ?thesis
      by (simp add: addOrUpdateUser_def Let_def find_push_new)
  next
    case False
    from saveUsers_not_ok[OF False, of js "users s @ [?u]"] obtain e f' where
      "saveUsers js (users s @ [?u]) (fs s) = (Throw e, f')" by blast
    with None False show ?thesis
      by (simp add: addOrUpdateUser_def Let_def)
  qed
next
  case (Some u0)
  let ?u = "u0\<lparr>username := js_or (from_username from) (username u0),
                      first_name := js_or (from_first_name from) (first_name u0),
                      last_name := js_or (from_last_name from) (last_name u0),
                      last_seen := t\<rparr>"
  have id: "telegram_id ?u = from_id from" using findUserById_id[OF Some] by simp
  show ?thesis
  proof (cases "save_ok (fs s)")
    case True
    from saveUsers_ok[OF True, of js "update_found (from_id from) ?u (users s)"] obtain f' where
      "saveUsers js (update_found (from_id from) ?u (users s)) (fs s) = (Return (), f')" "save_ok f'" by blast
    with Some True show ?thesis
      using find_update_found_same[OF Some id]
      by (simp add: addOrUpdateUser_def Let_def)
  next
    case False
    from saveUsers_not_ok[OF False, of js "update_found (from_id from) ?u (users s)"] obtain e f' where
      "saveUsers js (update_found (from_id from) ?u (users s)) (fs s) = (Throw e, f')" by blast
    with Some False show ?thesis
      by (simp add: addOrUpdateUser_def Let_def)
  qed
qed

text \<open>The token and the id of a known user survive every upsert, and every run of upserts.\<close>

lemma upsert_keeps_known:
  assumes "findUserById (users s) i = Some u"
  shows "\<exists>u'. findUserById (users (snd (addOrUpdateUser js en t from s))) i = Some u' \<and>
              token u' = token u \<and> telegram_id u' = telegram_id u"
proof (cases "from_id from = i")
  case True
  from upsert_registers[of js en t "from" s] True assms findUserById_id[OF assms]
  show ?thesis by auto
next
  case False
  show ?thesis
  proof (cases "findUserById (users s) (from_id from)")
    case None
    from upsert_new[OF None, of js en t] obtain f' where
      "users (snd (addOrUpdateUser js en t from s)) = users s @ [\<lparr>telegram_id = from_id from,
                    username = js_or (from_username from) Null,
                    first_name = js_or (from_first_name from) Null,
                    last_name = js_or (from_last_name from) Null,
                    token = toString_hex (randomBytes en 10),
                    last_seen = t\<rparr>]" by force
    with assms show ?thesis by (simp add: find_push_known)
  next
    case (Some u0)
    let ?u = "u0\<lparr>username := js_or (from_username from) (username u0),
                      first_name := js_or (from_first_name from) (first_name u0),
                      last_name := js_or (from_last_name from) (last_name u0),
                      last_seen := t\<rparr>"
    from upsert_known[OF Some, of js en t] obtain f' where
      "users (snd (addOrUpdateUser js en t from s)) = update_found (from_id from) ?u (users s)" by force
    moreover have "telegram_id ?u = from_id from" using findUserById_id[OF Some] by simp
    ultimately show ?thesis using assms False find_update_found_other[of ?u "from_id from" i "users s"] by simp
  qed
qed

lemma upserts_keep_known:
  assumes "findUserById (users s) i = Some u"
  shows "\<exists>u'. findUserById (users (upserts js run s)) i = Some u' \<and>
              token u' = token u \<and> telegram_id u' = telegram_id u"
  using assms
proof (induction run arbitrary: s u)
  case Nil
  then show ?case by simp
next
  case (Cons x run)
  obtain en t frm where x: "x = (en, t, frm)" by (cases x)
  from upsert_keeps_known[OF Cons.prems, of js en t frm] obtain u1 where
    u1: "findUserById (users (snd (addOrUpdateUser js en t frm s))) i = Some u1"
        "token u1 = token u" "telegram_id u1 = telegram_id u" by blast
  from Cons.IH[OF u1(1)] u1 show ?case by (simp add: x)
qed

lemma upserts_save_ok:
  assumes "save_ok (fs s)"
  shows "save_ok (fs (upserts js run s))"
  using assms
proof (induction run arbitrary: s)
  case Nil
  then show ?case by simp
next
  case (Cons x run)
  obtain en t frm where x: "x = (en, t, frm)" by (cases x)
  from upsert_result[of js en t frm s] Cons.prems
  have "save_ok (fs (snd (addOrUpdateUser js en t frm s)))" by simp
  from Cons.IH[OF this] show ?case by (simp add: x)
qed

text \<open>The hexadecimal rendering.\<close>

lemma hex_digit_in: "d < 16 \<Longrightarrow> hex_digit d \<in> set ''0123456789abcdef''"
  unfolding hex_digit_def by (rule nth_mem) simp

lemma byte_nibbles: "unat (b :: 8 word) div 16 < 16 \<and> unat b mod 16 < 16"
proof -
  have "unat b < 2 ^ 8" using unsigned_less[of b] by simp
  then show ?thesis by simp
qed

lemma toString_hex_length: "length (toString_hex bs) = 2 * length bs"
  by (induction bs) (simp_all add: toString_hex_def)

lemma toString_hex_chars: "set (toString_hex bs) \<subseteq> set ''0123456789abcdef''"
proof (induction bs)
  case Nil
  then show ?case by (simp add: toString_hex_def)
next
  case (Cons b bs)
  have hi: "hex_digit (unat b div 16) \<in> set ''0123456789abcdef''"
    using byte_nibbles[of b] by (intro hex_digit_in) simp
  have lo: "hex_digit (unat b mod 16) \<in> set ''0123456789abcdef''"
    using byte_nibbles[of b] by (intro hex_digit_in) simp
  have "toString_hex (b # bs) =
          hex_digit (unat b div 16) # hex_digit (unat b mod 16) # toString_hex bs"
    by (simp add: toString_hex_def)
  with hi lo Cons show ?case by simp
qed

lemma randomBytes_length: "length (randomBytes en n) = n"
  by (simp add: randomBytes_def)

text \<open>The tokens of the two example entropy sources.\<close>

lemma upt_10: "[0..<10] = [0, 1, 2, 3, 4, 5, 6, 7, 8, 9 :: nat]"
  by (simp add: upt_rec)

lemma sample_token: "toString_hex (randomBytes sample_entropy 10) = ''00112233445566778899''"
  by (simp add: randomBytes_def toString_hex_def hex_digit_def sample_entropy_def upt_10)

lemma ff_token: "toString_hex (randomBytes ff_entropy 10) = ''ffffffffffffffffffff''"
  by (simp add: randomBytes_def toString_hex_def hex_digit_def ff_entropy_def upt_10)

lemmas registry_defs =
  empty_state_def sample_state_def sample_user_def sample_from_def sample_fs_def read_only_fs_def
  save_ok_def findUserById_def addOrUpdateUser_def saveUsers_def ensureDataDir_def
  writeFileSync_def js_or_def Let_def sample_token ff_token

text \<open>
  C10. For every identity the registry has not seen, the upsert appends one record whose
  token is the hexadecimal rendering of 10 bytes of the entropy source: 20 characters,
  each one of \<^verbatim>\<open>0123456789abcdef\<close>. When the store can be written, this record is what
  the upsert returns.
\<close>

theorem fresh_token_format:
  assumes "findUserById (users s) (from_id sender) = None"
  shows "\<exists>u. users (snd (addOrUpdateUser js en t sender s)) = users s @ [u] \<and>
             telegram_id u = from_id sender \<and>
             token u = toString_hex (randomBytes en 10) \<and>
             length (token u) = 20 \<and>
             set (token u) \<subseteq> set ''0123456789abcdef'' \<and>
             (save_ok (fs s) \<longrightarrow> fst (addOrUpdateUser js en t sender s) = Return u)"
proof -
  let ?u = "\<lparr>telegram_id = from_id sender,
                    username = js_or (from_username sender) Null,
                    first_name = js_or (from_first_name sender) Null,
                    last_name = js_or (from_last_name sender) Null,
                    token = toString_hex (randomBytes en 10),
                    last_seen = t\<rparr>"
  from upsert_new[OF assms, of js en t] have us: "users (snd (addOrUpdateUser js en t sender s)) = users s @ [?u]"
    by force
  have len: "length (token ?u) = 20" by (simp add: toString_hex_length randomBytes_length)
  have chars: "set (token ?u) \<subseteq> set ''0123456789abcdef''" using toString_hex_chars[of "randomBytes en 10"] by simp
  have ret: "save_ok (fs s) \<longrightarrow> fst (addOrUpdateUser js en t sender s) = Return ?u"
    using upsert_result[of js en t sender s] us assms by (auto simp: find_push_new)
  from us len chars ret show ?thesis by (intro exI[of _ ?u]) simp
qed

theorem fresh_token_format_witness:
  "findUserById (users empty_state) (from_id (sample_from 7 ''kot'')) = None \<and>
   save_ok (fs empty_state) \<and>
   fst (addOrUpdateUser sample_JSON_stringify sample_entropy 1000 (sample_from 7 ''kot'') empty_state) =
     Return \<lparr>telegram_id = 7, username = Str ''kot'', first_name = Null, last_name = Null,
             token = ''00112233445566778899'', last_seen = 1000\<rparr> \<and>
   length ''00112233445566778899'' = 20"
proof -
  have unseen: "findUserById (users empty_state) (from_id (sample_from 7 ''kot'')) = None"
    by (simp add: registry_defs)
  have ok: "save_ok (fs empty_state)" by (simp add: registry_defs)
  from fresh_token_format[where js = sample_JSON_stringify and en = sample_entropy and t = 1000,
      OF unseen] ok
  obtain u where
    u: "token u = toString_hex (randomBytes sample_entropy 10)" "length (token u) = 20"
       "fst (addOrUpdateUser sample_JSON_stringify sample_entropy 1000 (sample_from 7 ''kot'')
              empty_state) = Return u"
    by blast
  have ret: "fst (addOrUpdateUser sample_JSON_stringify sample_entropy 1000 (sample_from 7 ''kot'')
        empty_state) =
      Return \<lparr>telegram_id = 7, username = Str ''kot'', first_name = Null, last_name = Null,
              token = ''00112233445566778899'', last_seen = 1000\<rparr>"
    by (simp add: registry_defs)
  from u ret have "length ''00112233445566778899'' = 20" by (simp add: sample_token)
  with unseen ok ret show ?thesis by simp
qed

text \<open>A record that an upsert returns is the one the registry holds for the sender.\<close>

lemma upsert_returns_registered:
  "fst (addOrUpdateUser js en t sender s) = Return r \<Longrightarrow>
   findUserById (users (snd (addOrUpdateUser js en t sender s))) (from_id sender) = Some r"
  using upsert_result[of js en t sender s] upsert_registers[of js en t sender s]
  by (cases "save_ok (fs s)") auto

text \<open>
  C6. The claim: across repeated upserts of an identity the token and the id stay the
  same and \<open>last_seen\<close> is non-decreasing. The code writes the clock reading of
  \<^verbatim>\<open>new Date()\<close> into \<open>last_seen\<close> without looking at the stored value: when the clock
  reads 2000 at the first upsert and 1000 at the second, both upserts return and
  \<open>last_seen\<close> falls from 2000 to 1000. The token and the id are the same.
\<close>

theorem upsert_last_seen_counterexample:
  "fst (addOrUpdateUser sample_JSON_stringify sample_entropy 2000 (sample_from 7 ''kot'') empty_state) =
     Return \<lparr>telegram_id = 7, username = Str ''kot'', first_name = Null, last_name = Null,
             token = ''00112233445566778899'', last_seen = 2000\<rparr> \<and>
   fst (addOrUpdateUser sample_JSON_stringify ff_entropy 1000 (sample_from 7 ''kot'')
         (snd (addOrUpdateUser sample_JSON_stringify sample_entropy 2000
                 (sample_from 7 ''kot'') empty_state))) =
     Return \<lparr>telegram_id = 7, username = Str ''kot'', first_name = Null, last_name = Null,
             token = ''00112233445566778899'', last_seen = 1000\<rparr> \<and>
   (1000 :: nat) < 2000"
  by (simp add: registry_defs)

text \<open>
  C6, amended. Take a first upsert of an identity, any run of further upserts, any state
  of the file system after them, and a later upsert with the same id. The record the
  registry holds for the id after the later upsert has the token and the id of the record
  it held after the first one: the token is assigned once and never generated again. A
  record that either upsert returns is that record, and an upsert returns when the store
  can be written at its call. \<open>last_seen\<close> is the clock reading of the upsert, whatever
  the stored value was: across the two upserts it is non-decreasing exactly when the
  clock reading of the later one is not before that of the first.
\<close>

theorem upsert_token_stable:
  assumes same: "from_id from2 = from_id from1"
  shows "let c1 = addOrUpdateUser js en1 t1 from1 s;
             c2 = addOrUpdateUser js en2 t2 from2 ((upserts js run (snd c1))\<lparr>fs := f2\<rparr>)
         in \<exists>u1 u2.
           findUserById (users (snd c1)) (from_id from1) = Some u1 \<and>
           findUserById (users (snd c2)) (from_id from1) = Some u2 \<and>
           token u2 = token u1 \<and> telegram_id u2 = telegram_id u1 \<and>
           telegram_id u1 = from_id from1 \<and>
           last_seen u1 = t1 \<and> last_seen u2 = t2 \<and>
           (last_seen u1 \<le> last_seen u2) = (t1 \<le> t2) \<and>
           (\<forall>r. fst c1 = Return r \<longrightarrow> r = u1) \<and>
           (\<forall>r. fst c2 = Return r \<longrightarrow> r = u2) \<and>
           (save_ok (fs s) \<longrightarrow> fst c1 = Return u1) \<and>
           (save_ok f2 \<longrightarrow> fst c2 = Return u2)"
proof -
  let ?c1 = "addOrUpdateUser js en1 t1 from1 s"
  let ?mid = "(upserts js run (snd ?c1))\<lparr>fs := f2\<rparr>"
  let ?c2 = "addOrUpdateUser js en2 t2 from2 ?mid"
  from upsert_registers[of js en1 t1 from1 s] obtain u1 where
    u1: "findUserById (users (snd ?c1)) (from_id from1) = Some u1" "telegram_id u1 = from_id from1"
        "last_seen u1 = t1"
    by blast
  from upserts_keep_known[OF u1(1), of js run] obtain u' where
    "findUserById (users (upserts js run (snd ?c1))) (from_id from1) = Some u'"
    and tok': "token u' = token u1"
    by blast
  then have u': "findUserById (users ?mid) (from_id from1) = Some u'" by simp
  from upsert_registers[of js en2 t2 from2 ?mid] obtain u2 where
    u2: "findUserById (users (snd ?c2)) (from_id from2) = Some u2" "telegram_id u2 = from_id from2"
        "last_seen u2 = t2"
        "token u2 = (case findUserById (users ?mid) (from_id from2) of
                       None \<Rightarrow> toString_hex (randomBytes en2 10) | Some u0 \<Rightarrow> token u0)"
    by blast
  from u2(4) u' tok' same have tok: "token u2 = token u1" by simp
  from u2(1) same have reg2: "findUserById (users (snd ?c2)) (from_id from1) = Some u2" by simp
  from u1(2) u2(2) same have tid: "telegram_id u2 = telegram_id u1" by simp
  from u1(3) u2(3) have le: "(last_seen u1 \<le> last_seen u2) = (t1 \<le> t2)" by simp
  have ret1: "\<forall>r. fst ?c1 = Return r \<longrightarrow> r = u1"
  proof (intro allI impI)
    fix r assume "fst ?c1 = Return r"
    from upsert_returns_registered[OF this] u1(1) show "r = u1" by simp
  qed
  have ret2: "\<forall>r. fst ?c2 = Return r \<longrightarrow> r = u2"
  proof (intro allI impI)
    fix r assume "fst ?c2 = Return r"
    from upsert_returns_registered[OF this] u2(1) show "r = u2" by simp
  qed
  have ok1: "save_ok (fs s) \<longrightarrow> fst ?c1 = Return u1"
  proof
    assume w: "save_ok (fs s)"
    from upsert_result[of js en1 t1 from1 s] w u1(1) show "fst ?c1 = Return u1" by simp
  qed
  have ok2: "save_ok f2 \<longrightarrow> fst ?c2 = Return u2"
  proof
    assume "save_ok f2"
    then have w: "save_ok (fs ?mid)" by simp
    from upsert_result[of js en2 t2 from2 ?mid] w u2(1) show "fst ?c2 = Return u2" by simp
  qed
  show ?thesis
    unfolding Let_def
    by (intro exI[of _ u1] exI[of _ u2] conjI)
       (rule u1(1) reg2 tok tid u1(2) u1(3) u2(3) le ret1 ret2 ok1 ok2)+
qed

theorem upsert_token_stable_witness:
  "from_id (sample_from 7 ''cat'') = from_id (sample_from 7 ''kot'') \<and>
   save_ok (fs empty_state) \<and> save_ok sample_fs \<and> (1000 :: nat) \<le> 2000 \<and>
   fst (addOrUpdateUser sample_JSON_stringify sample_entropy 1000 (sample_from 7 ''kot'') empty_state) =
     Return \<lparr>telegram_id = 7, username = Str ''kot'', first_name = Null, last_name = Null,
             token = ''00112233445566778899'', last_seen = 1000\<rparr> \<and>
   fst (addOrUpdateUser sample_JSON_stringify ff_entropy 2000 (sample_from 7 ''cat'')
         ((upserts sample_JSON_stringify [(ff_entropy, 1500, sample_from 8 ''dog'')]
            (snd (addOrUpdateUser sample_JSON_stringify sample_entropy 1000
                    (sample_from 7 ''kot'') empty_state)))\<lparr>fs := sample_fs\<rparr>)) =
     Return \<lparr>telegram_id = 7, username = Str ''cat'', first_name = Null, last_name = Null,
             token = ''00112233445566778899'', last_seen = 2000\<rparr>"
proof -
  let ?c1 = "addOrUpdateUser sample_JSON_stringify sample_entropy 1000 (sample_from 7 ''kot'')
      empty_state"
  let ?c2 = "addOrUpdateUser sample_JSON_stringify ff_entropy 2000 (sample_from 7 ''cat'')
      ((upserts sample_JSON_stringify [(ff_entropy, 1500, sample_from 8 ''dog'')] (snd ?c1))
         \<lparr>fs := sample_fs\<rparr>)"
  have same: "from_id (sample_from 7 ''cat'') = from_id (sample_from 7 ''kot'')"
    by (simp add: sample_from_def)
  have ok: "save_ok (fs empty_state)" "save_ok sample_fs" by (simp_all add: registry_defs)
  from upsert_token_stable[where js = sample_JSON_stringify and ?en1.0 = sample_entropy
      and ?t1.0 = 1000 and ?en2.0 = ff_entropy and ?t2.0 = 2000 and s = empty_state
      and ?f2.0 = sample_fs
      and run = "[(ff_entropy, 1500, sample_from 8 ''dog'')]", OF same] ok
  obtain u1 u2 where
    ret: "fst ?c1 = Return u1" "fst ?c2 = Return u2"
    and keep: "token u2 = token u1" "telegram_id u2 = telegram_id u1"
    and seen: "last_seen u1 = 1000" "last_seen u2 = 2000"
    and mono: "(last_seen u1 \<le> last_seen u2) = ((1000 :: nat) \<le> 2000)"
    unfolding Let_def by blast
  have first_ret: "fst ?c1 =
      Return \<lparr>telegram_id = 7, username = Str ''kot'', first_name = Null, last_name = Null,
              token = ''00112233445566778899'', last_seen = 1000\<rparr>"
    by (simp add: registry_defs)
  from ret(1) first_ret have tok1: "token u1 = ''00112233445566778899''" "telegram_id u1 = 7"
    by auto
  have second_fields: "fst ?c2 =
      Return \<lparr>telegram_id = 7, username = Str ''cat'', first_name = Null, last_name = Null,
              token = ''00112233445566778899'', last_seen = 2000\<rparr>"
    by (simp add: registry_defs)
  from same ok first_ret second_fields ret keep seen mono tok1 show ?thesis by simp
qed

text \<open>
  C3. The claim: a failed write of the store is logged and the upsert still returns the
  record. In the code \<^verbatim>\<open>saveUsers\<close> catches nothing: with a store that cannot be written,
  the upsert of a new user throws.
\<close>

theorem upsert_write_failure_counterexample:
  "fst (addOrUpdateUser sample_JSON_stringify sample_entropy 1000 (sample_from 7 ''kot'')
         (empty_state\<lparr>fs := read_only_fs\<rparr>)) = Throw (Error ''write'') \<and>
   console (snd (addOrUpdateUser sample_JSON_stringify sample_entropy 1000 (sample_from 7 ''kot'')
         (empty_state\<lparr>fs := read_only_fs\<rparr>))) = []"
  by (simp add: registry_defs)

text \<open>
  C3, amended. For every upsert (create or update), a failure to write the store is
  neither caught nor logged by the registry: the upsert throws to its caller and returns
  no record, and no console line is written. The array was changed before the write: the
  registry holds the record of the sender, with the token it had or, for a new user, the
  generated one.
\<close>

theorem upsert_write_failure:
  assumes "\<not> save_ok (fs s)"
  shows "\<exists>e s' u.
           addOrUpdateUser js en t sender s = (Throw e, s') \<and>
           console s' = console s \<and>
           findUserById (users s') (from_id sender) = Some u \<and>
           token u = (case findUserById (users s) (from_id sender) of
                        None \<Rightarrow> toString_hex (randomBytes en 10) | Some u0 \<Rightarrow> token u0)"
proof -
  obtain r s' where c: "addOrUpdateUser js en t sender s = (r, s')"
    by (cases "addOrUpdateUser js en t sender s")
  from upsert_result[of js en t sender s] c assms obtain e where "r = Throw e" and "console s' = console s"
    by auto
  moreover from upsert_registers[of js en t sender s] c obtain u where
    "findUserById (users s') (from_id sender) = Some u"
    "token u = (case findUserById (users s) (from_id sender) of
                        None \<Rightarrow> toString_hex (randomBytes en 10) | Some u0 \<Rightarrow> token u0)" by auto
  ultimately show ?thesis using c by simp
qed

theorem upsert_write_failure_witness:
  "\<not> save_ok (fs (sample_state\<lparr>fs := read_only_fs\<rparr>)) \<and>
   fst (addOrUpdateUser sample_JSON_stringify sample_entropy 2000 (sample_from 101 ''kot'')
         (sample_state\<lparr>fs := read_only_fs\<rparr>)) = Throw (Error ''write'') \<and>
   findUserById (users (snd (addOrUpdateUser sample_JSON_stringify sample_entropy 2000
         (sample_from 101 ''kot'') (sample_state\<lparr>fs := read_only_fs\<rparr>)))) 101 =
     Some \<lparr>telegram_id = 101, username = Str ''kot'', first_name = Str ''User'', last_name = Null,
           token = ''aaaaaaaaaaaaaaaaaaaa'', last_seen = 2000\<rparr>"
proof -
  have bad: "\<not> save_ok (fs (sample_state\<lparr>fs := read_only_fs\<rparr>))"
    by (simp add: registry_defs)
  have ev: "fst (addOrUpdateUser sample_JSON_stringify sample_entropy 2000 (sample_from 101 ''kot'')
         (sample_state\<lparr>fs := read_only_fs\<rparr>)) = Throw (Error ''write'') \<and>
     findUserById (users (snd (addOrUpdateUser sample_JSON_stringify sample_entropy 2000
         (sample_from 101 ''kot'') (sample_state\<lparr>fs := read_only_fs\<rparr>)))) 101 =
       Some \<lparr>telegram_id = 101, username = Str ''kot'', first_name = Str ''User'', last_name = Null,
             token = ''aaaaaaaaaaaaaaaaaaaa'', last_seen = 2000\<rparr>"
    by (simp add: registry_defs)
  from upsert_write_failure[where js = sample_JSON_stringify and en = sample_entropy and t = 2000
      and sender = "sample_from 101 ''kot''", OF bad] bad ev
  show ?thesis by simp
qed

section \<open>Loading the registry\<close>

text \<open>
  C4. The claim: content that parses as JSON but is not an array of user records loads as
  the empty registry. \<^verbatim>\<open>loadUsers\<close> returns what \<^verbatim>\<open>JSON.parse\<close> returns: a file holding
  \<^verbatim>\<open>{}\<close> loads as the empty object, not as the empty array.
\<close>

theorem loadUsers_counterexample:
  "fst (loadUsers sample_JSON_parse (sample_fs\<lparr>users_file := Text ''{}''\<rparr>)) = Return (Obj []) \<and>
   fst (loadUsers sample_JSON_parse (sample_fs\<lparr>users_file := Text ''{}''\<rparr>)) \<noteq> Return (Arr [])"
  by (simp add: sample_defs loadUsers_def ensureDataDir_def readFileSync_def)

text \<open>
  C4, amended. At startup, when the data directory exists or can be made: if the users
  file is missing, unreadable or not valid JSON, the registry loads as the empty array
  and \<^verbatim>\<open>loadUsers\<close> does not throw; content that parses as JSON is loaded as parsed,
  whatever its shape.
\<close>

theorem loadUsers_best_effort:
  assumes "dir_exists f \<or> mkdir_fails f = False"
  shows "fst (loadUsers JSON_parse f) =
           Return (case users_file f of
                     Missing \<Rightarrow> Arr []
                   | Unreadable \<Rightarrow> Arr []
                   | Text raw \<Rightarrow> (case JSON_parse raw of Throw e \<Rightarrow> Arr [] | Return v \<Rightarrow> v))"
  using assms
  by (auto simp: loadUsers_def ensureDataDir_def readFileSync_def split: file_state.splits result.splits)

theorem loadUsers_best_effort_witness:
  "(dir_exists sample_fs \<or> mkdir_fails sample_fs = False) \<and>
   fst (loadUsers sample_JSON_parse sample_fs) = Return (Arr []) \<and>
   fst (loadUsers sample_JSON_parse (sample_fs\<lparr>users_file := Unreadable\<rparr>)) = Return (Arr []) \<and>
   fst (loadUsers sample_JSON_parse (sample_fs\<lparr>users_file := Text ''{telegram_id''\<rparr>)) =
     Return (Arr [])"
proof -
  have dir: "dir_exists sample_fs \<or> mkdir_fails sample_fs = False" by (simp add: sample_fs_def)
  have dir1: "dir_exists (sample_fs\<lparr>users_file := Unreadable\<rparr>) \<or>
      mkdir_fails (sample_fs\<lparr>users_file := Unreadable\<rparr>) = False"
    by (simp add: sample_fs_def)
  have dir2: "dir_exists (sample_fs\<lparr>users_file := Text ''{telegram_id''\<rparr>) \<or>
      mkdir_fails (sample_fs\<lparr>users_file := Text ''{telegram_id''\<rparr>) = False"
    by (simp add: sample_fs_def)
  from dir loadUsers_best_effort[where JSON_parse = sample_JSON_parse, OF dir]
    loadUsers_best_effort[where JSON_parse = sample_JSON_parse, OF dir1]
    loadUsers_best_effort[where JSON_parse = sample_JSON_parse, OF dir2]
  show ?thesis by (simp add: sample_fs_def sample_JSON_parse_def)
qed

end
